theory Spec2Isabelle
  imports Main
begin

section \<open>Flight router state (app-router-provider.tsx)\<close>

text \<open>
  A segment of the navigation tree is a plain string or a dynamic triple
  \<^verbatim>\<open>[name, value, type]\<close>. A \<^verbatim>\<open>FlightRouterState\<close> is the tuple
  \<^verbatim>\<open>[segment, parallelRoutes]\<close>; the parallel routes are an object, kept here as the
  list of its entries in the order \<^verbatim>\<open>Object.values\<close> enumerates them. \<open>Leaf\<close> is the
  empty array \<^verbatim>\<open>[] as any\<close> that \<^verbatim>\<open>getParallelRoutes\<close> returns at the end of the list.
\<close>

datatype segment = Static string | Dynamic string string string

datatype tree = Leaf | Node segment "(string \<times> tree) list"

text \<open>
  \<^verbatim>\<open>Array.prototype.shift\<close>: removes and returns the first element, \<^verbatim>\<open>undefined\<close> on
  an empty array. The second component is the array afterwards.
\<close>

definition shift :: "'a list \<Rightarrow> 'a option \<times> 'a list" where
  "shift xs = (case xs of [] \<Rightarrow> (None, []) | x # rest \<Rightarrow> (Some x, rest))"

text \<open>
  \<^verbatim>\<open>getParallelRoutes(segmentsList)\<close>. The argument array is mutated by \<^verbatim>\<open>shift\<close>, so the
  model returns the tree together with the contents of the array after the call.
  \<^verbatim>\<open>if (segment)\<close> is a truthiness test: it fails on \<^verbatim>\<open>undefined\<close> (empty array)
  and on the empty string.
\<close>

fun getParallelRoutes :: "string list \<Rightarrow> tree \<times> string list" where
  "getParallelRoutes [] = (Leaf, [])"
| "getParallelRoutes (segment # segmentsList) =
     (if segment \<noteq> [] then
        (case getParallelRoutes segmentsList of
           (sub, remaining) \<Rightarrow> (Node (Static segment) [(''children'', sub)], remaining))
      else (Leaf, segmentsList))"

text \<open>
  The same function with the recursion depth bounded by a fuel argument and the
  \<^verbatim>\<open>shift\<close> written out; \<open>None\<close> is "did not return within the bound".
\<close>

fun getParallelRoutes_fuel :: "nat \<Rightarrow> string list \<Rightarrow> (tree \<times> string list) option" where
  "getParallelRoutes_fuel 0 segmentsList = None"
| "getParallelRoutes_fuel (Suc n) segmentsList =
     (case shift segmentsList of
        (None, l) \<Rightarrow> Some (Leaf, l)
      | (Some segment, l) \<Rightarrow>
          (if segment \<noteq> [] then
             (case getParallelRoutes_fuel n l of
                None \<Rightarrow> None
              | Some (sub, remaining) \<Rightarrow>
                  Some (Node (Static segment) [(''children'', sub)], remaining))
           else Some (Leaf, l)))"

text \<open>
  Reading a tree from the root to the leaf along the \<^verbatim>\<open>children\<close> slot: the segments
  met on the way.
\<close>

fun readChildren :: "tree \<Rightarrow> segment list"
  and readSlot :: "(string \<times> tree) list \<Rightarrow> segment list" where
  "readChildren Leaf = []"
| "readChildren (Node seg routes) = seg # readSlot routes"
| "readSlot [] = []"
| "readSlot ((k, t) # routes) = (if k = ''children'' then readChildren t else readSlot routes)"

text \<open>
  The store of arrays the provider works on: \<open>arrays\<close> maps a reference to the contents
  of the array it points to, \<open>next_ref\<close> is the first reference not yet allocated.
\<close>

record js_store =
  arrays :: "nat \<Rightarrow> string list"
  next_ref :: nat

text \<open>
  \<^verbatim>\<open>routeParams\<close>: \<open>segments\<close> is a reference to the caller's array, or absent.
\<close>

record route_params =
  pathname :: string
  query :: string
  segments :: "nat option"

text \<open>\<^verbatim>\<open>[...segments]\<close>: a new array with the same contents; \<^verbatim>\<open>segments = []\<close> when absent.\<close>

definition spreadCopy :: "nat option \<Rightarrow> js_store \<Rightarrow> nat \<times> js_store" where
  "spreadCopy r s =
     (let contents = (case r of None \<Rightarrow> [] | Some a \<Rightarrow> arrays s a);
          fresh = next_ref s
      in (fresh, s\<lparr>arrays := (arrays s)(fresh := contents), next_ref := Suc fresh\<rparr>))"

text \<open>\<^verbatim>\<open>getParallelRoutes\<close> called on a reference: the array behind it is consumed.\<close>

definition getParallelRoutes_ref :: "nat \<Rightarrow> js_store \<Rightarrow> tree \<times> js_store" where
  "getParallelRoutes_ref a s =
     (case getParallelRoutes (arrays s a) of
        (t, remaining) \<Rightarrow> (t, s\<lparr>arrays := (arrays s)(a := remaining)\<rparr>))"

text \<open>
  The \<^verbatim>\<open>tree\<close> of \<^verbatim>\<open>AppRouterProvider\<close>:
  \<^verbatim>\<open>[pathname, { children: getParallelRoutes([...segments]) }]\<close>.
\<close>

definition AppRouterProvider_tree :: "route_params \<Rightarrow> js_store \<Rightarrow> tree \<times> js_store" where
  "AppRouterProvider_tree routeParams s =
     (case spreadCopy (segments routeParams) s of
        (copy, s1) \<Rightarrow>
          (case getParallelRoutes_ref copy s1 of
             (sub, s2) \<Rightarrow> (Node (Static (pathname routeParams)) [(''children'', sub)], s2)))"

subsection \<open>Selected params\<close>

text \<open>
  A thrown JavaScript value: an \<^verbatim>\<open>Error\<close> object with its message, or any other value
  with its \<^verbatim>\<open>String(e)\<close> rendering.
\<close>

datatype js_error = JsError string | JsThrown string

text \<open>A param is a string, or an array of strings for the catch-all kinds.\<close>

datatype param = Single string | Multi "string list"

text \<open>
  The \<^verbatim>\<open>params\<close> object is a plain object: \<open>own\<close> holds its own properties, \<open>proto\<close> the
  array that has become its prototype, \<open>None\<close> as long as the prototype is the one the
  object was created with.
\<close>

type_synonym properties = "string \<rightharpoonup> param"

record params =
  own :: properties
  proto :: "string list option"

text \<open>
  \<^verbatim>\<open>params[name] = v\<close> on a plain object. Every name but \<^verbatim>\<open>__proto__\<close> becomes (or
  overwrites) an own property. \<^verbatim>\<open>__proto__\<close> is the accessor inherited from
  \<^verbatim>\<open>Object.prototype\<close>: its setter ignores a string and makes an array the prototype of
  the object; no own property is stored either way.
\<close>

definition setProperty :: "string \<Rightarrow> param \<Rightarrow> params \<Rightarrow> params" where
  "setProperty name v ps =
     (if name = ''__proto__''
      then (case v of Single str \<Rightarrow> ps | Multi arr \<Rightarrow> ps\<lparr>proto := Some arr\<rparr>)
      else ps\<lparr>own := (own ps)(name \<mapsto> v)\<rparr>)"

text \<open>\<^verbatim>\<open>value.split('/')\<close>: the pieces between the separators, empty pieces kept.\<close>

fun split :: "char \<Rightarrow> string \<Rightarrow> string list" where
  "split sep [] = [[]]"
| "split sep (c # cs) =
     (if c = sep then [] # split sep cs
      else (case split sep cs of [] \<Rightarrow> [[c]] | w # ws \<Rightarrow> (c # w) # ws))"

text \<open>\<^verbatim>\<open>s.startsWith(p)\<close>\<close>

definition startsWith :: "string \<Rightarrow> string \<Rightarrow> bool" where
  "startsWith s p = (take (length p) s = p)"

text \<open>
  \<^verbatim>\<open>isDynamicParameter ? segment[1] : segment\<close>
\<close>

fun segmentValue :: "segment \<Rightarrow> string" where
  "segmentValue (Static s) = s"
| "segmentValue (Dynamic name v ty) = v"

text \<open>
  The two assignments to \<^verbatim>\<open>params[segment[0]]\<close>: the split value for the catch-all
  kinds \<^verbatim>\<open>'c'\<close> and \<^verbatim>\<open>'oc'\<close>, the value itself for any other dynamic segment, nothing
  for a string segment.
\<close>

fun assignParam :: "segment \<Rightarrow> params \<Rightarrow> params" where
  "assignParam (Static s) ps = ps"
| "assignParam (Dynamic name v ty) ps =
     (if ty = ''c'' \<or> ty = ''oc'' then setProperty name (Multi (split CHR ''/'' v)) ps
      else setProperty name (Single v) ps)"

text \<open>
  \<^verbatim>\<open>getSelectedParams(currentTree, params)\<close>, with \<^verbatim>\<open>PAGE_SEGMENT_KEY\<close> (imported from the
  framework) as the parameter \<open>pageKey\<close>. \<open>forParallelRoutes\<close> is the \<^verbatim>\<open>for ... of\<close>
  loop over the remaining parallel routes. On the empty array \<^verbatim>\<open>[]\<close> the first
  statement reads \<^verbatim>\<open>currentTree[1]\<close> as \<^verbatim>\<open>undefined\<close> and \<^verbatim>\<open>Object.values\<close> throws a
  TypeError. In the loop a route \<^verbatim>\<open>[]\<close> has the segment \<^verbatim>\<open>undefined\<close>, which is falsy,
  so the loop continues with the next route.
\<close>

fun getSelectedParams :: "string \<Rightarrow> tree \<Rightarrow> params \<Rightarrow> js_error + params"
  and forParallelRoutes :: "string \<Rightarrow> (string \<times> tree) list \<Rightarrow> params \<Rightarrow> js_error + params" where
  "getSelectedParams pageKey Leaf ps =
     Inl (JsError ''Cannot convert undefined or null to object'')"
| "getSelectedParams pageKey (Node seg parallelRoutes) ps =
     forParallelRoutes pageKey parallelRoutes ps"
| "forParallelRoutes pageKey [] ps = Inr ps"
| "forParallelRoutes pageKey ((slot, Leaf) # routes) ps = forParallelRoutes pageKey routes ps"
| "forParallelRoutes pageKey ((slot, Node seg sub) # routes) ps =
     (if segmentValue seg = [] \<or> startsWith (segmentValue seg) pageKey
      then forParallelRoutes pageKey routes ps
      else (case getSelectedParams pageKey (Node seg sub) (assignParam seg ps) of
              Inl e \<Rightarrow> Inl e
            | Inr ps' \<Rightarrow> forParallelRoutes pageKey routes ps'))"

text \<open>
  \<^verbatim>\<open>AppRouterProvider\<close>: the tree, and \<^verbatim>\<open>pathParams = getSelectedParams(tree)\<close> with the
  default \<^verbatim>\<open>params = {}\<close>.
\<close>

definition AppRouterProvider ::
  "string \<Rightarrow> route_params \<Rightarrow> js_store \<Rightarrow> (tree \<times> (js_error + params)) \<times> js_store" where
  "AppRouterProvider pageKey routeParams s =
     (case AppRouterProvider_tree routeParams s of
        (t, s') \<Rightarrow> ((t, getSelectedParams pageKey t \<lparr>own = Map.empty, proto = None\<rparr>), s'))"

subsection \<open>What the walk visits\<close>

text \<open>
  The parameter a single segment stands for: a dynamic segment of kind \<^verbatim>\<open>'c'\<close> or
  \<^verbatim>\<open>'oc'\<close> gives its name with the value split on \<^verbatim>\<open>'/'\<close>, any other dynamic segment its
  name with the value, a string segment nothing.
\<close>

fun contribution :: "segment \<Rightarrow> (string \<times> param) option" where
  "contribution (Static s) = None"
| "contribution (Dynamic name v ty) =
     Some (name, if ty = ''c'' \<or> ty = ''oc'' then Multi (split CHR ''/'' v) else Single v)"

text \<open>
  A segment the loop passes over with \<^verbatim>\<open>continue\<close>: its value is empty or starts with
  the page key.
\<close>

definition skipped :: "string \<Rightarrow> segment \<Rightarrow> bool" where
  "skipped pageKey seg = (segmentValue seg = [] \<or> startsWith (segmentValue seg) pageKey)"

text \<open>
  The segments of the slots the walk reaches, in the order it reaches them: a slot
  holding \<^verbatim>\<open>[]\<close> or a skipped segment is passed over together with everything below it.
\<close>

fun visitedSlots :: "string \<Rightarrow> (string \<times> tree) list \<Rightarrow> segment list" where
  "visitedSlots pageKey [] = []"
| "visitedSlots pageKey ((slot, Leaf) # routes) = visitedSlots pageKey routes"
| "visitedSlots pageKey ((slot, Node seg sub) # routes) =
     (if skipped pageKey seg then visitedSlots pageKey routes
      else seg # visitedSlots pageKey sub @ visitedSlots pageKey routes)"

text \<open>
  The reading of the specification, for comparison: every parallel-route slot of the
  tree, recursively, whatever its segment is; a dynamic segment gives its parameter
  unless its value is empty or starts with the page key.
\<close>

fun specSlots :: "(string \<times> tree) list \<Rightarrow> segment list" where
  "specSlots [] = []"
| "specSlots ((slot, Leaf) # routes) = specSlots routes"
| "specSlots ((slot, Node seg sub) # routes) = seg # specSlots sub @ specSlots routes"

definition specContribution :: "string \<Rightarrow> segment \<Rightarrow> (string \<times> param) option" where
  "specContribution pageKey seg = (if skipped pageKey seg then None else contribution seg)"

fun specSelectedParams :: "string \<Rightarrow> tree \<Rightarrow> properties" where
  "specSelectedParams pageKey Leaf = Map.empty"
| "specSelectedParams pageKey (Node seg routes) =
     map_of (rev (List.map_filter (specContribution pageKey) (specSlots routes)))"

text \<open>
  The properties a sequence of visited segments leaves behind when each assigns its own
  in turn: for a name assigned more than once the last assignment stands.
\<close>

definition paramsOf :: "segment list \<Rightarrow> properties" where
  "paramsOf segs = map_of (rev (List.map_filter contribution segs))"

text \<open>
  Trees in which nothing hangs below a slot the walk passes over: a skipped segment has
  no parallel routes of its own.
\<close>

fun skipsAreLeaves :: "string \<Rightarrow> (string \<times> tree) list \<Rightarrow> bool" where
  "skipsAreLeaves pageKey [] = True"
| "skipsAreLeaves pageKey ((slot, Leaf) # routes) = skipsAreLeaves pageKey routes"
| "skipsAreLeaves pageKey ((slot, Node seg sub) # routes) =
     ((if skipped pageKey seg then specSlots sub = [] else skipsAreLeaves pageKey sub)
      \<and> skipsAreLeaves pageKey routes)"

section \<open>Presets (common-preset.ts)\<close>

subsection \<open>staticDirs\<close>

text \<open>
  An entry of \<^verbatim>\<open>staticDirs\<close>: a path, or an object \<^verbatim>\<open>{ from, to }\<close>.
\<close>

datatype static_dir = DirPath string | DirMapping string string

text \<open>
  \<^verbatim>\<open>staticDirs = async (values = []) => [...defaultStaticDirs, ...values]\<close>. The constant
  \<^verbatim>\<open>defaultStaticDirs\<close> is imported from \<^verbatim>\<open>../utils/constants\<close> and is a parameter here;
  \<open>None\<close> is the call with no previous value.
\<close>

definition staticDirs :: "static_dir list \<Rightarrow> static_dir list option \<Rightarrow> static_dir list" where
  "staticDirs defaultStaticDirs vals =
     defaultStaticDirs @ (case vals of None \<Rightarrow> [] | Some vs \<Rightarrow> vs)"

subsection \<open>favicon\<close>

text \<open>
  What the favicon preset reads from outside: the \<^verbatim>\<open>staticDirs\<close> value the presets
  give, the directories, the path functions of the platform, the helpers imported
  from other modules, the file system, and the bundled default favicon.
\<close>

record favicon_env =
  presetStaticDirs :: "static_dir list option"
  fav_configDir :: string
  fav_cwd :: string
  isAbsolute :: "string \<Rightarrow> bool"
  getDirectoryFromWorkingDir :: "string \<Rightarrow> string \<Rightarrow> string \<Rightarrow> string"
  parseStaticDir :: "string \<Rightarrow> string \<times> string"
  pathJoin :: "string \<Rightarrow> string \<Rightarrow> string"
  pathExists :: "string \<Rightarrow> bool"
  defaultFavicon :: string

text \<open>\<^verbatim>\<open>typeof dir === 'string' ? dir : `${dir.from}:${dir.to}`\<close>\<close>

fun staticDirString :: "static_dir \<Rightarrow> string" where
  "staticDirString (DirPath dir) = dir"
| "staticDirString (DirMapping from to) = from @ '':'' @ to"

text \<open>
  The body of the \<^verbatim>\<open>statics.map(async (dir) => ...)\<close> callback: the favicons found in
  one static dir, \<^verbatim>\<open>favicon.svg\<close> pushed before \<^verbatim>\<open>favicon.ico\<close>.
\<close>

definition faviconsInDir :: "favicon_env \<Rightarrow> string \<Rightarrow> string list" where
  "faviconsInDir env dir =
     (let normalizedDir =
            (if presetStaticDirs env \<noteq> None \<and> \<not> isAbsolute env dir
             then getDirectoryFromWorkingDir env (fav_configDir env) (fav_cwd env) dir
             else dir);
          (staticPath, targetEndpoint) = parseStaticDir env normalizedDir;
          results0 = [];
          results1 =
            (if targetEndpoint = ''/'' \<and> pathExists env (pathJoin env staticPath ''favicon.svg'')
             then results0 @ [pathJoin env staticPath ''favicon.svg''] else results0);
          results2 =
            (if targetEndpoint = ''/'' \<and> pathExists env (pathJoin env staticPath ''favicon.ico'')
             then results1 @ [pathJoin env staticPath ''favicon.ico''] else results1)
      in results2)"

text \<open>\<^verbatim>\<open>flatlist.join(', ')\<close>\<close>

fun joinWith :: "string \<Rightarrow> string list \<Rightarrow> string" where
  "joinWith sep [] = []"
| "joinWith sep [x] = x"
| "joinWith sep (x # y # ys) = x @ sep @ joinWith sep (y # ys)"

text \<open>The text of the warning, after \<^verbatim>\<open>dedent\<close>.\<close>

definition multipleFaviconsWarning :: "string list \<Rightarrow> string" where
  "multipleFaviconsWarning flatlist =
     ''Looks like multiple favicons were detected. Using the first one.''
       @ [CHR 0x0A, CHR 0x0A] @ joinWith '', '' flatlist"

text \<open>
  \<^verbatim>\<open>favicon(value, options)\<close>: the texts it passes to \<^verbatim>\<open>logger.warn\<close>, and the value it
  returns. \<open>faviconFromStatics\<close> is the part after the first \<^verbatim>\<open>if\<close>. \<^verbatim>\<open>if (value)\<close> is a
  truthiness test: \<^verbatim>\<open>undefined\<close> and the empty string both fall through to the static
  dirs. \<^verbatim>\<open>flatlist[0] || defaultFavicon\<close> likewise takes the default when there is no
  first element or it is the empty string.
\<close>

definition faviconFromStatics :: "favicon_env \<Rightarrow> string list \<times> string" where
  "faviconFromStatics env =
     (let statics = (case presetStaticDirs env of
                       Some staticDirsValue \<Rightarrow> map staticDirString staticDirsValue
                     | None \<Rightarrow> [])
      in if length statics > 0 then
           (let lists = map (faviconsInDir env) statics;
                flatlist = foldl (\<lambda>l1 l2. l1 @ l2) [] lists;
                warnings = (if length flatlist > 1
                            then [multipleFaviconsWarning flatlist] else [])
            in (warnings,
                (case flatlist of
                   [] \<Rightarrow> defaultFavicon env
                 | first # others \<Rightarrow> if first \<noteq> [] then first else defaultFavicon env)))
         else ([], defaultFavicon env))"

definition favicon :: "favicon_env \<Rightarrow> string option \<Rightarrow> string list \<times> string" where
  "favicon env val =
     (case val of
        Some v \<Rightarrow> if v \<noteq> [] then ([], v) else faviconFromStatics env
      | None \<Rightarrow> faviconFromStatics env)"

text \<open>
  The reading of the specification, for comparison: from each static dir whose target
  endpoint is \<^verbatim>\<open>'/'\<close>, the existing ones of \<^verbatim>\<open>favicon.svg\<close> and \<^verbatim>\<open>favicon.ico\<close>, in that
  order.
\<close>

definition specFavicons :: "favicon_env \<Rightarrow> string list" where
  "specFavicons env =
     concat (map (\<lambda>d.
        let dir = staticDirString d;
            normalizedDir = (if isAbsolute env dir then dir
                             else getDirectoryFromWorkingDir env (fav_configDir env) (fav_cwd env) dir);
            parsed = parseStaticDir env normalizedDir
        in if snd parsed = ''/''
           then filter (pathExists env)
                  [pathJoin env (fst parsed) ''favicon.svg'', pathJoin env (fst parsed) ''favicon.ico'']
           else [])
       (case presetStaticDirs env of None \<Rightarrow> [] | Some ds \<Rightarrow> ds))"

subsection \<open>core\<close>

text \<open>
  \<^verbatim>\<open>optionalEnvToBoolean(input)\<close>. \<^verbatim>\<open>String.prototype.toUpperCase\<close> is the parameter
  \<open>toUpperCase\<close>. The input is \<^verbatim>\<open>string | undefined\<close>, so in the last test
  \<^verbatim>\<open>typeof input === 'string'\<close> holds whenever it is reached, and the final
  \<^verbatim>\<open>return undefined\<close> is never reached.
\<close>

definition optionalEnvToBoolean :: "(string \<Rightarrow> string) \<Rightarrow> string option \<Rightarrow> bool option" where
  "optionalEnvToBoolean toUpperCase input =
     (case input of
        None \<Rightarrow> None
      | Some str \<Rightarrow>
          if toUpperCase str = ''FALSE'' then Some False
          else if toUpperCase str = ''TRUE'' then Some True
          else Some True)"

text \<open>
  \<^verbatim>\<open>toUpperCase\<close> on ASCII text: the letters \<^verbatim>\<open>a\<close> to \<^verbatim>\<open>z\<close> become \<^verbatim>\<open>A\<close> to \<^verbatim>\<open>Z\<close>, every
  other character stays. It is used to evaluate the functions on concrete inputs.
\<close>

definition toUpperCaseAscii :: "string \<Rightarrow> string" where
  "toUpperCaseAscii str =
     map (\<lambda>c. case map_of (zip ''abcdefghijklmnopqrstuvwxyz'' ''ABCDEFGHIJKLMNOPQRSTUVWXYZ'') c of
                Some u \<Rightarrow> u
              | None \<Rightarrow> c) str"

text \<open>A JavaScript value of a config field, as far as the presets look at it.\<close>

datatype js_value = JUndefined | JBool bool | JString string

type_synonym CoreConfig = "string \<rightharpoonup> js_value"

text \<open>The fields of \<^verbatim>\<open>options\<close> the core preset reads; \<open>None\<close> is \<^verbatim>\<open>undefined\<close>.\<close>

record core_options =
  opt_disableTelemetry :: "bool option"
  opt_test :: "bool option"
  opt_enableCrashReports :: "bool option"

text \<open>
  \<^verbatim>\<open>core(existing, options)\<close>, with \<^verbatim>\<open>process.env.STORYBOOK_ENABLE_CRASH_REPORTS\<close> as
  \<open>envCrashReports\<close>. The spread keeps every field of \<open>existing\<close>; the two fields are
  then written. \<^verbatim>\<open>a || b\<close> is \<^verbatim>\<open>a\<close> only when \<^verbatim>\<open>a\<close> is \<^verbatim>\<open>true\<close>.
\<close>

definition core ::
  "(string \<Rightarrow> string) \<Rightarrow> string option \<Rightarrow> CoreConfig \<Rightarrow> core_options \<Rightarrow> CoreConfig" where
  "core toUpperCase envCrashReports existing options =
     existing
       (''disableTelemetry'' \<mapsto>
          JBool (opt_disableTelemetry options = Some True \<or> opt_test options = Some True),
        ''enableCrashReports'' \<mapsto>
          (if opt_enableCrashReports options = Some True then JBool True
           else (case optionalEnvToBoolean toUpperCase envCrashReports of
                   None \<Rightarrow> JUndefined
                 | Some b \<Rightarrow> JBool b)))"

subsection \<open>The server channel\<close>

text \<open>The events of the channel this file listens to or emits.\<close>

datatype channel_event =
    SET_WHATS_NEW_CACHE
  | REQUEST_WHATS_NEW_DATA
  | RESULT_WHATS_NEW_DATA
  | TELEMETRY_ERROR
  | TOGGLE_WHATS_NEW_NOTIFICATIONS

text \<open>\<^verbatim>\<open>WhatsNewResponse\<close>, \<^verbatim>\<open>WhatsNewCache\<close> and \<^verbatim>\<open>WhatsNewData\<close>.\<close>

record WhatsNewResponse =
  title :: string
  url :: string
  blogUrl :: "string option"
  publishedAt :: string
  excerpt :: string

record WhatsNewCache =
  lastDismissedPost :: "string option"
  lastReadPost :: "string option"

record WhatsNewSuccess =
  post :: WhatsNewResponse
  postIsRead :: bool
  showNotification :: bool
  disableWhatsNewNotifications :: js_value

datatype WhatsNewData = StatusError | StatusSuccess WhatsNewSuccess

text \<open>
  The response of \<^verbatim>\<open>fetch\<close>: \<^verbatim>\<open>response.ok\<close>, the outcome of \<^verbatim>\<open>response.json()\<close>, and
  \<^verbatim>\<open>String(response)\<close>.
\<close>

record http_response =
  ok :: bool
  json :: "js_error + WhatsNewResponse"
  asString :: string

text \<open>
  The config object \<^verbatim>\<open>readConfig\<close> gives: the outcome of
  \<^verbatim>\<open>getFieldValue(['core', 'disableWhatsNewNotifications'])\<close>, and the outcome of
  \<^verbatim>\<open>setFieldValue\<close> of that field followed by \<^verbatim>\<open>printConfig(main).code\<close>.
\<close>

record main_config =
  getFieldValue :: "js_error + js_value"
  printedWith :: "bool \<Rightarrow> js_error + string"

text \<open>
  What the handlers meet outside: every call that leaves this file either returns a
  value or throws, and the world fixes which. \<open>None\<close> is \<^verbatim>\<open>undefined\<close> or \<^verbatim>\<open>null\<close> where a
  value is optional, and "no error" where only the failure matters.
\<close>

record server_world =
  configDir :: string
  coreDisableTelemetry :: "bool option"
  fetchWhatsNew :: "js_error + http_response"
  findConfigFile :: "string option"
  readConfig :: "string \<Rightarrow> js_error + main_config"
  cacheGet :: "js_error + WhatsNewCache option"
  cacheSet :: "WhatsNewCache \<Rightarrow> js_error option"
  writeFile :: "string \<Rightarrow> string \<Rightarrow> js_error option"
  telemetryFails :: "js_error option"
  sendTelemetryErrorFails :: "js_error option"

text \<open>The calls a handler makes that leave the process, in the order it makes them.\<close>

datatype effect =
    LogVerbose string
  | Emit channel_event WhatsNewData
  | CacheSet WhatsNewCache
  | WriteFile string string
  | Telemetry string bool
  | SendTelemetryError js_error string

text \<open>\<^verbatim>\<open>e instanceof Error ? e.message : String(e)\<close>\<close>

fun errorText :: "js_error \<Rightarrow> string" where
  "errorText (JsError message) = message"
| "errorText (JsThrown rendered) = rendered"

definition noMainFile :: "string \<Rightarrow> string" where
  "noMainFile dir = ''unable to find storybook main file in '' @ dir"

text \<open>\<^verbatim>\<open>(await options.cache.get(WHATS_NEW_CACHE)) ?? {}\<close>\<close>

definition cacheOrEmpty :: "WhatsNewCache option \<Rightarrow> WhatsNewCache" where
  "cacheOrEmpty got =
     (case got of None \<Rightarrow> \<lparr>lastDismissedPost = None, lastReadPost = None\<rparr> | Some c \<Rightarrow> c)"

text \<open>
  The \<^verbatim>\<open>try\<close> block of the \<^verbatim>\<open>REQUEST_WHATS_NEW_DATA\<close> handler up to the \<^verbatim>\<open>data\<close> object:
  the error thrown on the way, or the data.
\<close>

definition whatsNewData :: "server_world \<Rightarrow> js_error + WhatsNewSuccess" where
  "whatsNewData w =
     (case fetchWhatsNew w of
        Inl e \<Rightarrow> Inl e
      | Inr response \<Rightarrow>
          (case (if ok response then json response else Inl (JsThrown (asString response))) of
             Inl e \<Rightarrow> Inl e
           | Inr fetched \<Rightarrow>
               (case findConfigFile w of
                  None \<Rightarrow> Inl (JsError (noMainFile (configDir w)))
                | Some configFileName \<Rightarrow>
                    if configFileName = [] then Inl (JsError (noMainFile (configDir w)))
                    else
                      (case readConfig w configFileName of
                         Inl e \<Rightarrow> Inl e
                       | Inr main \<Rightarrow>
                           (case getFieldValue main of
                              Inl e \<Rightarrow> Inl e
                            | Inr disabled \<Rightarrow>
                                (case cacheGet w of
                                   Inl e \<Rightarrow> Inl e
                                 | Inr got \<Rightarrow>
                                     (let cache = cacheOrEmpty got
                                      in Inr \<lparr>post = fetched,
                                              postIsRead = (Some (url fetched) = lastReadPost cache),
                                              showNotification =
                                                (Some (url fetched) \<noteq> lastDismissedPost cache
                                                 \<and> Some (url fetched) \<noteq> lastReadPost cache),
                                              disableWhatsNewNotifications = disabled\<rparr>)))))))"

text \<open>
  A handler gives the calls it made and the error it let escape, if any (the rejection
  of its promise).
\<close>

type_synonym handled = "effect list \<times> js_error option"

text \<open>
  The \<^verbatim>\<open>REQUEST_WHATS_NEW_DATA\<close> handler. The \<^verbatim>\<open>try\<close> block ends with the emit of the data;
  an error thrown before that leaves it with no call made. The \<^verbatim>\<open>catch\<close> block logs the
  error and emits \<^verbatim>\<open>{ status: 'ERROR' }\<close>. The calls \<^verbatim>\<open>logger.verbose\<close> and \<^verbatim>\<open>channel.emit\<close>
  themselves are taken to return normally: the handler has no branch for their failure.
\<close>

definition requestTry :: "server_world \<Rightarrow> handled" where
  "requestTry w =
     (case whatsNewData w of
        Inr d \<Rightarrow> ([Emit RESULT_WHATS_NEW_DATA (StatusSuccess d)], None)
      | Inl e \<Rightarrow> ([], Some e))"

definition requestCatch :: "js_error \<Rightarrow> handled" where
  "requestCatch e = ([LogVerbose (errorText e), Emit RESULT_WHATS_NEW_DATA StatusError], None)"

definition onRequestWhatsNewData :: "server_world \<Rightarrow> handled" where
  "onRequestWhatsNewData w =
     (case requestTry w of
        (calls, None) \<Rightarrow> (calls, None)
      | (calls, Some e) \<Rightarrow>
          (case requestCatch e of (later, escaped) \<Rightarrow> (calls @ later, escaped)))"

text \<open>
  The payload of \<^verbatim>\<open>SET_WHATS_NEW_CACHE\<close>, as the spread \<^verbatim>\<open>{ ...cache, ...data }\<close> reads it:
  for each field \<open>None\<close> when the key is absent, and the value (\<^verbatim>\<open>undefined\<close> included)
  when the key is there.
\<close>

record WhatsNewCacheUpdate =
  setLastDismissedPost :: "string option option"
  setLastReadPost :: "string option option"

text \<open>
  The \<^verbatim>\<open>SET_WHATS_NEW_CACHE\<close> handler: a failing \<^verbatim>\<open>cache.get\<close> is logged and replaced by
  \<^verbatim>\<open>{}\<close>; every key of \<open>d\<close> that is there overrides the cached field, whatever its value.
\<close>

definition onSetWhatsNewCache :: "server_world \<Rightarrow> WhatsNewCacheUpdate \<Rightarrow> handled" where
  "onSetWhatsNewCache w d =
     (let (logged, got) = (case cacheGet w of
                             Inl e \<Rightarrow> ([LogVerbose (errorText e)], None)
                           | Inr c \<Rightarrow> ([], c));
          cache = cacheOrEmpty got;
          merged = \<lparr>lastDismissedPost = (case setLastDismissedPost d of
                                            None \<Rightarrow> lastDismissedPost cache | Some x \<Rightarrow> x),
                    lastReadPost = (case setLastReadPost d of
                                      None \<Rightarrow> lastReadPost cache | Some x \<Rightarrow> x)\<rparr>
      in (logged @ [CacheSet merged], cacheSet w merged))"

text \<open>
  The \<^verbatim>\<open>try\<close> block of the \<^verbatim>\<open>TOGGLE_WHATS_NEW_NOTIFICATIONS\<close> handler: the calls made, and
  the error thrown, if any. \<^verbatim>\<open>invariant(mainPath, message)\<close> throws when \<^verbatim>\<open>mainPath\<close> is
  falsy.
\<close>

definition toggleTry :: "server_world \<Rightarrow> bool \<Rightarrow> bool \<Rightarrow> handled" where
  "toggleTry w isTelemetryEnabled flag =
     (case findConfigFile w of
        None \<Rightarrow> ([], Some (JsError (''Invariant failed: '' @ noMainFile (configDir w))))
      | Some mainPath \<Rightarrow>
          if mainPath = []
          then ([], Some (JsError (''Invariant failed: '' @ noMainFile (configDir w))))
          else
            (case readConfig w mainPath of
               Inl e \<Rightarrow> ([], Some e)
             | Inr main \<Rightarrow>
                 (case printedWith main flag of
                    Inl e \<Rightarrow> ([], Some e)
                  | Inr code \<Rightarrow>
                      (case writeFile w mainPath code of
                         Some e \<Rightarrow> ([WriteFile mainPath code], Some e)
                       | None \<Rightarrow>
                           if isTelemetryEnabled
                           then ([WriteFile mainPath code, Telemetry ''core-config'' flag],
                                 telemetryFails w)
                           else ([WriteFile mainPath code], None)))))"

text \<open>
  The \<^verbatim>\<open>catch\<close> block of that handler: \<^verbatim>\<open>invariant(error instanceof Error)\<close> throws on a
  thrown value that is no \<^verbatim>\<open>Error\<close>; then the error is sent, when telemetry is enabled.
\<close>

definition toggleCatch :: "server_world \<Rightarrow> bool \<Rightarrow> js_error \<Rightarrow> handled" where
  "toggleCatch w isTelemetryEnabled error =
     (case error of
        JsThrown rendered \<Rightarrow> ([], Some (JsError ''Invariant failed''))
      | JsError message \<Rightarrow>
          if isTelemetryEnabled
          then ([SendTelemetryError error ''core-config''], sendTelemetryErrorFails w)
          else ([], None))"

definition onToggleWhatsNewNotifications :: "server_world \<Rightarrow> bool \<Rightarrow> handled" where
  "onToggleWhatsNewNotifications w flag =
     (let isTelemetryEnabled = (coreDisableTelemetry w \<noteq> Some True)
      in case toggleTry w isTelemetryEnabled flag of
           (calls, None) \<Rightarrow> (calls, None)
         | (calls, Some error) \<Rightarrow>
             (case toggleCatch w isTelemetryEnabled error of
                (later, escaped) \<Rightarrow> (calls @ later, escaped)))"

text \<open>The \<^verbatim>\<open>TELEMETRY_ERROR\<close> handler.\<close>

definition onTelemetryError :: "server_world \<Rightarrow> js_error \<Rightarrow> handled" where
  "onTelemetryError w error =
     (let isTelemetryEnabled = (coreDisableTelemetry w \<noteq> Some True)
      in if isTelemetryEnabled
         then ([SendTelemetryError error ''browser''], sendTelemetryErrorFails w)
         else ([], None))"

text \<open>What arrives on the channel: the event with its payload.\<close>

datatype incoming =
    SetWhatsNewCache WhatsNewCacheUpdate
  | RequestWhatsNewData
  | ToggleWhatsNewNotifications bool
  | TelemetryError js_error

text \<open>
  \<^verbatim>\<open>experimental_serverChannel\<close>: the handler registered for each event. (The handlers
  that \<^verbatim>\<open>initFileSearchChannel\<close> and \<^verbatim>\<open>initCreateNewStoryChannel\<close> register live in other
  modules.)
\<close>

fun experimental_serverChannel :: "server_world \<Rightarrow> incoming \<Rightarrow> handled" where
  "experimental_serverChannel w (SetWhatsNewCache d) = onSetWhatsNewCache w d"
| "experimental_serverChannel w RequestWhatsNewData = onRequestWhatsNewData w"
| "experimental_serverChannel w (ToggleWhatsNewNotifications flag) =
     onToggleWhatsNewNotifications w flag"
| "experimental_serverChannel w (TelemetryError error) = onTelemetryError w error"

text \<open>The calls that relay telemetry.\<close>

fun isTelemetryCall :: "effect \<Rightarrow> bool" where
  "isTelemetryCall (Telemetry name flag) = True"
| "isTelemetryCall (SendTelemetryError error name) = True"
| "isTelemetryCall other = False"

text \<open>A small world to evaluate the handlers on: telemetry is disabled, every call succeeds.\<close>

definition examplePost :: WhatsNewResponse where
  "examplePost =
     \<lparr>title = ''Release'', url = ''https://storybook.js.org/releases/8'', blogUrl = None,
      publishedAt = ''2024-03-12'', excerpt = ''New''\<rparr>"

definition exampleWorld :: server_world where
  "exampleWorld =
     \<lparr>configDir = ''.storybook'',
      coreDisableTelemetry = Some True,
      fetchWhatsNew = Inr \<lparr>ok = True, json = Inr examplePost, asString = ''[object Response]''\<rparr>,
      findConfigFile = Some ''.storybook/main.ts'',
      readConfig = (\<lambda>file. Inr \<lparr>getFieldValue = Inr JUndefined,
                                   printedWith = (\<lambda>flag. Inr (if flag then ''off'' else ''on''))\<rparr>),
      cacheGet = Inr (Some \<lparr>lastDismissedPost = None,
                             lastReadPost = Some ''https://storybook.js.org/releases/8''\<rparr>),
      cacheSet = (\<lambda>c. None),
      writeFile = (\<lambda>file code. None),
      telemetryFails = None,
      sendTelemetryErrorFails = None\<rparr>"

text \<open>A small environment to evaluate the favicon preset on.\<close>

definition exampleFaviconEnv :: favicon_env where
  "exampleFaviconEnv =
     \<lparr>presetStaticDirs = Some [DirMapping ''/assets'' ''/static'', DirPath ''/public''],
      fav_configDir = ''/project/.storybook'',
      fav_cwd = ''/project'',
      isAbsolute = (\<lambda>p. take 1 p = ''/''),
      getDirectoryFromWorkingDir = (\<lambda>configDir workingDir directory. workingDir @ ''/'' @ directory),
      parseStaticDir = (\<lambda>d. if d = ''/public'' then (''/public'', ''/'') else (''/assets'', ''/static'')),
      pathJoin = (\<lambda>a b. a @ ''/'' @ b),
      pathExists = (\<lambda>p. p = ''/public/favicon.svg'' \<or> p = ''/public/favicon.ico''
                         \<or> p = ''/assets/favicon.svg''),
      defaultFavicon = ''/bundled/favicon.svg''\<rparr>"

section \<open>Tree construction\<close>

lemma getParallelRoutes_takeWhile:
  "readChildren (fst (getParallelRoutes segs)) = map Static (takeWhile (\<lambda>s. s \<noteq> []) segs)"
  by (induction segs) (auto split: prod.splits)

lemma getParallelRoutes_chain:
  "[] \<notin> set segs \<Longrightarrow>
   getParallelRoutes segs =
     (foldr (\<lambda>s t. Node (Static s) [(''children'', t)]) segs Leaf, [])"
  by (induction segs) auto

lemma shift_length: "shift xs = (Some x, l) \<Longrightarrow> Suc (length l) = length xs"
  by (auto simp: shift_def split: list.splits)

lemma getParallelRoutes_remaining: "length (snd (getParallelRoutes segs)) \<le> length segs"
  by (induction segs) (auto split: prod.splits)

lemma getParallelRoutes_fuel_enough:
  "length segs < n \<Longrightarrow> getParallelRoutes_fuel n segs = Some (getParallelRoutes segs)"
proof (induction segs arbitrary: n)
  case Nil
  then obtain m where "n = Suc m" by (cases n) auto
  then show ?case by (simp add: shift_def)
next
  case (Cons a segs)
  then obtain m where n: "n = Suc m" and m: "length segs < m" by (cases n) auto
  from Cons.IH [OF m] show ?case by (simp add: n shift_def split: prod.splits)
qed

lemma AppRouterProvider_root:
  "fst (fst (AppRouterProvider pk rp s)) =
     Node (Static (pathname rp))
       [(''children'',
         fst (getParallelRoutes (case segments rp of None \<Rightarrow> [] | Some a \<Rightarrow> arrays s a)))]"
  by (simp add: AppRouterProvider_def AppRouterProvider_tree_def spreadCopy_def
      getParallelRoutes_ref_def Let_def split: prod.splits)

lemma AppRouterProvider_store:
  "snd (AppRouterProvider pk rp s) = snd (AppRouterProvider_tree rp s)"
  by (simp add: AppRouterProvider_def split: prod.splits)

text \<open>
  Claim C1, as the code has it: for every list of non-empty segment strings, the tree
  of \<^verbatim>\<open>getParallelRoutes\<close> is the chain of the segments along the \<^verbatim>\<open>children\<close> slot, in
  the order of the list, ending in \<^verbatim>\<open>[]\<close>; reading it from the root to the leaf gives
  exactly the input segments; the whole array is consumed; and the provider installs
  that chain as the \<^verbatim>\<open>children\<close> slot under \<^verbatim>\<open>pathname\<close>.
\<close>

theorem getParallelRoutes_mirrors_segments:
  assumes "[] \<notin> set segs"
  shows "getParallelRoutes segs =
           (foldr (\<lambda>s t. Node (Static s) [(''children'', t)]) segs Leaf, [])
       \<and> readChildren (fst (getParallelRoutes segs)) = map Static segs
       \<and> (\<forall>pk rp s a. segments rp = Some a \<and> arrays s a = segs \<longrightarrow>
            readChildren (fst (fst (AppRouterProvider pk rp s)))
              = Static (pathname rp) # map Static segs)"
proof -
  have tw: "takeWhile (\<lambda>s. s \<noteq> []) segs = segs"
    using assms by (induction segs) auto
  have r: "readChildren (fst (getParallelRoutes segs)) = map Static segs"
    using getParallelRoutes_takeWhile [of segs] by (simp add: tw)
  show ?thesis
    using getParallelRoutes_chain [OF assms] r by (auto simp: AppRouterProvider_root)
qed

theorem getParallelRoutes_mirrors_segments_witness:
  "[] \<notin> set [''blog'', ''post'']
   \<and> getParallelRoutes [''blog'', ''post''] =
       (Node (Static ''blog'') [(''children'', Node (Static ''post'') [(''children'', Leaf)])], [])
   \<and> readChildren (fst (getParallelRoutes [''blog'', ''post'']))
       = [Static ''blog'', Static ''post'']
   \<and> readChildren (fst (fst (AppRouterProvider ''__PAGE__''
         \<lparr>pathname = ''/blog/post'', query = [], segments = Some 0\<rparr>
         \<lparr>arrays = (\<lambda>r. if r = 0 then [''blog'', ''post''] else []), next_ref = 1\<rparr>)))
       = [Static ''/blog/post'', Static ''blog'', Static ''post'']"
proof -
  have h: "[] \<notin> set [''blog'', ''post'']" by simp
  note t = getParallelRoutes_mirrors_segments [OF h]
  from t have "\<forall>pk rp s a. segments rp = Some a \<and> arrays s a = [''blog'', ''post''] \<longrightarrow>
            readChildren (fst (fst (AppRouterProvider pk rp s)))
              = Static (pathname rp) # map Static [''blog'', ''post'']"
    by blast
  from this [rule_format, of "\<lparr>pathname = ''/blog/post'', query = [], segments = Some 0\<rparr>" 0
      "\<lparr>arrays = (\<lambda>r. if r = 0 then [''blog'', ''post''] else []), next_ref = 1\<rparr>"
      "''__PAGE__''"]
  have p: "readChildren (fst (fst (AppRouterProvider ''__PAGE__''
         \<lparr>pathname = ''/blog/post'', query = [], segments = Some 0\<rparr>
         \<lparr>arrays = (\<lambda>r. if r = 0 then [''blog'', ''post''] else []), next_ref = 1\<rparr>)))
       = [Static ''/blog/post'', Static ''blog'', Static ''post'']"
    by simp
  from t p show ?thesis by simp
qed

text \<open>
  Claim C1 as stated fails on a list that holds an empty string: the truthiness test
  ends the chain there, and the empty segment and everything after it is dropped.
\<close>

theorem getParallelRoutes_empty_segment_counterexample:
  "readChildren (fst (getParallelRoutes [''a'', [], ''b''])) = [Static ''a'']
   \<and> readChildren (fst (getParallelRoutes [''a'', [], ''b''])) \<noteq> map Static [''a'', [], ''b'']"
  by simp

text \<open>
  Claim C8: \<^verbatim>\<open>getParallelRoutes\<close> returns on every list. A \<^verbatim>\<open>shift\<close> that yields a segment
  leaves the array exactly one element shorter, and a recursion depth of one more than
  the length of the list is always enough: with that much fuel the bounded function
  returns, and returns what the total function does.
\<close>

theorem getParallelRoutes_terminates:
  "(\<forall>x l. shift segs = (Some x, l) \<longrightarrow> Suc (length l) = length segs)
   \<and> (\<forall>n. length segs < n \<longrightarrow>
         getParallelRoutes_fuel n segs = Some (getParallelRoutes segs))
   \<and> length (snd (getParallelRoutes segs)) \<le> length segs"
  using shift_length [of segs] getParallelRoutes_fuel_enough [of segs]
    getParallelRoutes_remaining [of segs]
  by blast

theorem getParallelRoutes_terminates_witness:
  "shift [''a'', ''b''] = (Some ''a'', [''b''])
   \<and> Suc (length [''b'']) = length [''a'', ''b'']
   \<and> length [''a'', ''b''] < 3
   \<and> getParallelRoutes_fuel 3 [''a'', ''b''] =
       Some (Node (Static ''a'') [(''children'', Node (Static ''b'') [(''children'', Leaf)])], [])"
  using getParallelRoutes_terminates [of "[''a'', ''b'']"] by (simp add: shift_def)

text \<open>
  Claim C9: the provider does not touch the caller's arrays. Called on a reference,
  \<^verbatim>\<open>getParallelRoutes\<close> shortens the array behind it whenever that array is not empty;
  the provider calls it on a fresh copy, so every array allocated before the call, the
  caller's \<open>segments\<close> among them, holds the same contents afterwards. (\<^verbatim>\<open>routeParams\<close>
  itself is only read: the model passes it by value.)
\<close>

theorem AppRouterProvider_keeps_segments:
  assumes "a < next_ref s"
  shows "arrays (snd (AppRouterProvider pk rp s)) a = arrays s a
       \<and> (arrays s a \<noteq> [] \<longrightarrow>
            length (arrays (snd (getParallelRoutes_ref a s)) a) < length (arrays s a))"
proof -
  have frame: "arrays (snd (AppRouterProvider pk rp s)) a = arrays s a"
    using assms
    by (auto simp: AppRouterProvider_store AppRouterProvider_tree_def spreadCopy_def
        getParallelRoutes_ref_def Let_def split: prod.splits)
  have consumes: "length (arrays (snd (getParallelRoutes_ref a s)) a) < length (arrays s a)"
    if "arrays s a \<noteq> []"
    using that getParallelRoutes_remaining [of "tl (arrays s a)"]
    by (cases "arrays s a") (auto simp: getParallelRoutes_ref_def split: prod.splits)
  from frame consumes show ?thesis by blast
qed

theorem AppRouterProvider_keeps_segments_witness:
  "(0::nat) < next_ref \<lparr>arrays = (\<lambda>r. if r = 0 then [''a'', ''b''] else []), next_ref = 1\<rparr>
   \<and> arrays (snd (AppRouterProvider ''__PAGE__''
        \<lparr>pathname = ''/a/b'', query = [], segments = Some 0\<rparr>
        \<lparr>arrays = (\<lambda>r. if r = 0 then [''a'', ''b''] else []), next_ref = 1\<rparr>)) 0 = [''a'', ''b'']
   \<and> arrays (snd (getParallelRoutes_ref 0
        \<lparr>arrays = (\<lambda>r. if r = 0 then [''a'', ''b''] else []), next_ref = 1\<rparr>)) 0 = []"
  using AppRouterProvider_keeps_segments
    [of 0 "\<lparr>arrays = (\<lambda>r. if r = 0 then [''a'', ''b''] else []), next_ref = 1\<rparr>"
        "''__PAGE__''" "\<lparr>pathname = ''/a/b'', query = [], segments = Some 0\<rparr>"]
  by (simp add: getParallelRoutes_ref_def)

section \<open>Selected params\<close>

lemma map_filter_app:
  "List.map_filter f (xs @ ys) = List.map_filter f xs @ List.map_filter f ys"
  by (induction xs) (auto simp: List.map_filter_simps split: option.splits)

lemma paramsOf_Nil: "paramsOf [] = Map.empty"
  by (simp add: paramsOf_def List.map_filter_simps)

lemma paramsOf_append: "paramsOf (xs @ ys) = paramsOf xs ++ paramsOf ys"
  by (simp add: paramsOf_def map_filter_app)

lemma getSelectedParams_walk:
  "getSelectedParams pk t ps =
     (case t of
        Leaf \<Rightarrow> Inl (JsError ''Cannot convert undefined or null to object'')
      | Node seg routes \<Rightarrow> Inr (foldl (\<lambda>p s. assignParam s p) ps (visitedSlots pk routes)))"
  and forParallelRoutes_walk:
  "forParallelRoutes pk routes ps =
     Inr (foldl (\<lambda>p s. assignParam s p) ps (visitedSlots pk routes))"
proof (induction pk t ps and pk routes ps rule: getSelectedParams_forParallelRoutes.induct)
  case (1 pageKey ps)
  then show ?case by simp
next
  case (2 pageKey seg parallelRoutes ps)
  then show ?case by simp
next
  case (3 pageKey ps)
  then show ?case by simp
next
  case (4 pageKey slot routes ps)
  then show ?case by simp
next
  case (5 pageKey slot seg sub routes ps)
  show ?case
  proof (cases "skipped pageKey seg")
    case True
    with 5 show ?thesis by (simp add: skipped_def)
  next
    case False
    then have ns: "\<not> (segmentValue seg = [] \<or> startsWith (segmentValue seg) pageKey)"
      by (simp add: skipped_def)
    let ?ps1 = "foldl (\<lambda>p s. assignParam s p) (assignParam seg ps) (visitedSlots pageKey sub)"
    have inner: "getSelectedParams pageKey (Node seg sub) (assignParam seg ps) = Inr ?ps1"
      using 5(2) [OF ns] by simp
    have rest: "forParallelRoutes pageKey routes ?ps1 =
        Inr (foldl (\<lambda>p s. assignParam s p) ?ps1 (visitedSlots pageKey routes))"
      using 5(3) [OF ns inner] .
    have "forParallelRoutes pageKey ((slot, Node seg sub) # routes) ps =
        Inr (foldl (\<lambda>p s. assignParam s p) ?ps1 (visitedSlots pageKey routes))"
      using ns inner rest by simp
    also have "foldl (\<lambda>p s. assignParam s p) ?ps1 (visitedSlots pageKey routes) =
        foldl (\<lambda>p s. assignParam s p) ps (visitedSlots pageKey ((slot, Node seg sub) # routes))"
      using False by simp
    finally show ?thesis .
  qed
qed

lemma assignParam_own:
  assumes "\<And>v ty. seg \<noteq> Dynamic ''__proto__'' v ty"
  shows "assignParam seg ps = ps\<lparr>own := own ps ++ paramsOf [seg]\<rparr>"
proof (cases seg)
  case (Static str)
  then show ?thesis by (simp add: paramsOf_def List.map_filter_simps)
next
  case (Dynamic name v ty)
  with assms have "name \<noteq> ''__proto__''" by blast
  with Dynamic show ?thesis
    by (simp add: paramsOf_def List.map_filter_simps setProperty_def)
qed

lemma assignParam_proto_string:
  "\<not> (ty = ''c'' \<or> ty = ''oc'') \<Longrightarrow> assignParam (Dynamic ''__proto__'' v ty) ps = ps"
  by (simp add: setProperty_def)

lemma assignParam_proto_array:
  "ty = ''c'' \<or> ty = ''oc'' \<Longrightarrow>
   assignParam (Dynamic ''__proto__'' v ty) ps = ps\<lparr>proto := Some (split CHR ''/'' v)\<rparr>"
  by (auto simp: setProperty_def)

lemma assignAll_own:
  assumes "\<And>v ty. Dynamic ''__proto__'' v ty \<notin> set segs"
  shows "foldl (\<lambda>p s. assignParam s p) ps segs = ps\<lparr>own := own ps ++ paramsOf segs\<rparr>"
  using assms
proof (induction segs arbitrary: ps)
  case Nil
  then show ?case by (simp add: paramsOf_Nil)
next
  case (Cons seg segs)
  have head: "assignParam seg ps = ps\<lparr>own := own ps ++ paramsOf [seg]\<rparr>"
    using Cons.prems by (intro assignParam_own) auto
  have tail: "\<And>v ty. Dynamic ''__proto__'' v ty \<notin> set segs"
    using Cons.prems by auto
  have app: "paramsOf (seg # segs) = paramsOf [seg] ++ paramsOf segs"
    using paramsOf_append [of "[seg]" segs] by simp
  show ?case
    using Cons.IH [OF tail, of "assignParam seg ps"]
    by (simp add: head app)
qed

lemma specContribution_skipped: "skipped pk seg \<Longrightarrow> specContribution pk seg = None"
  by (simp add: specContribution_def)

lemma specContribution_kept: "\<not> skipped pk seg \<Longrightarrow> specContribution pk seg = contribution seg"
  by (simp add: specContribution_def)

lemma skipsAreLeaves_visited:
  "skipsAreLeaves pk routes \<Longrightarrow>
   List.map_filter (specContribution pk) (specSlots routes) =
   List.map_filter contribution (visitedSlots pk routes)"
proof (induction pk routes rule: visitedSlots.induct)
  case (1 pageKey)
  then show ?case by (simp add: List.map_filter_simps)
next
  case (2 pageKey slot routes)
  then show ?case by simp
next
  case (3 pageKey slot seg sub routes)
  then show ?case
    by (cases "skipped pageKey seg")
      (simp_all add: List.map_filter_simps map_filter_app specContribution_skipped
        specContribution_kept split: option.splits)
qed

lemma getSelectedParams_proto_name:
  "getSelectedParams ''__PAGE__''
     (Node (Static [])
       [(''children'', Node (Dynamic ''__proto__'' ''5'' ''d'')
          [(''children'', Node (Dynamic ''__proto__'' ''a/b'' ''c'') [])])])
     \<lparr>own = Map.empty, proto = None\<rparr>
   = Inr \<lparr>own = Map.empty, proto = Some [''a'', ''b'']\<rparr>"
  by (simp add: startsWith_def setProperty_def)

text \<open>
  Claim C2, as the code has it: on every tree \<^verbatim>\<open>[segment, parallelRoutes]\<close> in which no
  visited dynamic segment is named \<^verbatim>\<open>__proto__\<close>, the function returns, without an error,
  the params it was given with their own properties overridden by the parameters of
  the slots it visits, in the order of the visit (a later assignment to a name
  replaces an earlier one). The visit goes through the slots recursively, but a slot
  that holds \<^verbatim>\<open>[]\<close>, an empty segment value or a value starting with the page key is
  passed over together with all the slots below it; the root's own segment is not
  looked at. A dynamic segment of kind \<^verbatim>\<open>'c'\<close> or \<^verbatim>\<open>'oc'\<close> gives its name with the value
  split on \<^verbatim>\<open>'/'\<close>, any other dynamic segment its name with the value, a string segment
  nothing. Where no slot hangs below a passed-over segment, this is the parameters of
  every slot of the tree.
\<close>

theorem getSelectedParams_visited_slots:
  assumes "\<And>v ty. Dynamic ''__proto__'' v ty \<notin> set (visitedSlots pk routes)"
  shows "getSelectedParams pk (Node seg routes) ps
           = Inr (ps\<lparr>own := own ps ++ paramsOf (visitedSlots pk routes)\<rparr>)
       \<and> (skipsAreLeaves pk routes \<longrightarrow>
            getSelectedParams pk (Node seg routes) \<lparr>own = Map.empty, proto = None\<rparr>
              = Inr \<lparr>own = specSelectedParams pk (Node seg routes), proto = None\<rparr>)"
proof -
  have walk: "getSelectedParams pk (Node seg routes) p
      = Inr (p\<lparr>own := own p ++ paramsOf (visitedSlots pk routes)\<rparr>)" for p
    using assignAll_own [OF assms, of p] by (simp add: getSelectedParams_walk)
  have "paramsOf (visitedSlots pk routes) = specSelectedParams pk (Node seg routes)"
    if "skipsAreLeaves pk routes"
    using skipsAreLeaves_visited [OF that] by (simp add: paramsOf_def)
  with walk show ?thesis by simp
qed

theorem getSelectedParams_visited_slots_witness:
  "(\<forall>v ty. Dynamic ''__proto__'' v ty \<notin> set (visitedSlots ''__PAGE__''
     [(''children'', Node (Dynamic ''slug'' ''a/b'' ''c'')
        [(''children'', Node (Static ''posts'')
           [(''children'', Node (Dynamic ''id'' ''5'' ''d'')
              [(''children'', Node (Static ''__PAGE__'') [])])])])]))
   \<and> skipsAreLeaves ''__PAGE__''
     [(''children'', Node (Dynamic ''slug'' ''a/b'' ''c'')
        [(''children'', Node (Static ''posts'')
           [(''children'', Node (Dynamic ''id'' ''5'' ''d'')
              [(''children'', Node (Static ''__PAGE__'') [])])])])]
   \<and> getSelectedParams ''__PAGE__''
       (Node (Static [])
         [(''children'', Node (Dynamic ''slug'' ''a/b'' ''c'')
            [(''children'', Node (Static ''posts'')
               [(''children'', Node (Dynamic ''id'' ''5'' ''d'')
                  [(''children'', Node (Static ''__PAGE__'') [])])])])])
       \<lparr>own = Map.empty, proto = None\<rparr>
     = Inr \<lparr>own = [''slug'' \<mapsto> Multi [''a'', ''b''], ''id'' \<mapsto> Single ''5''], proto = None\<rparr>"
proof -
  have h: "Dynamic ''__proto__'' v ty \<notin> set (visitedSlots ''__PAGE__''
     [(''children'', Node (Dynamic ''slug'' ''a/b'' ''c'')
        [(''children'', Node (Static ''posts'')
           [(''children'', Node (Dynamic ''id'' ''5'' ''d'')
              [(''children'', Node (Static ''__PAGE__'') [])])])])])" for v ty
    by (simp add: skipped_def startsWith_def)
  show ?thesis
    using getSelectedParams_visited_slots [OF h, of "Static []" "\<lparr>own = Map.empty, proto = None\<rparr>"] h
    by (simp add: skipped_def startsWith_def paramsOf_def List.map_filter_simps)
qed

text \<open>
  Claim C2 as stated fails on a tree with a dynamic segment below a page segment: the
  walk does not reach that slot, so its parameter is missing from the result.
\<close>

theorem getSelectedParams_below_page_counterexample:
  "getSelectedParams ''__PAGE__''
     (Node (Static [])
       [(''children'', Node (Static ''__PAGE__'')
          [(''children'', Node (Dynamic ''id'' ''5'' ''d'') [])])])
     \<lparr>own = Map.empty, proto = None\<rparr> = Inr \<lparr>own = Map.empty, proto = None\<rparr>
   \<and> specSelectedParams ''__PAGE__''
       (Node (Static [])
         [(''children'', Node (Static ''__PAGE__'')
            [(''children'', Node (Dynamic ''id'' ''5'' ''d'') [])])]) ''id''
     = Some (Single ''5'')"
  by (simp add: startsWith_def skipped_def specContribution_def List.map_filter_simps)

section \<open>Presets\<close>

lemma foldl_append_concat: "foldl (\<lambda>l1 l2. l1 @ l2) acc ls = acc @ concat ls"
  by (induction ls arbitrary: acc) auto

lemma faviconsInDir_collected:
  "presetStaticDirs env = Some ds \<Longrightarrow>
   concat (map (faviconsInDir env) (map staticDirString ds)) = specFavicons env"
  by (auto simp: specFavicons_def faviconsInDir_def Let_def map_concat o_def split: prod.splits
      intro!: arg_cong[where f=concat])

lemma collected_None: "presetStaticDirs env = None \<Longrightarrow> specFavicons env = []"
  by (simp add: specFavicons_def)

lemma faviconFromStatics_collected:
  "faviconFromStatics env =
     ((if length (specFavicons env) > 1
       then [multipleFaviconsWarning (specFavicons env)] else []),
      (case specFavicons env of
         [] \<Rightarrow> defaultFavicon env
       | first # others \<Rightarrow> if first \<noteq> [] then first else defaultFavicon env))"
proof (cases "presetStaticDirs env")
  case None
  then show ?thesis by (simp add: faviconFromStatics_def collected_None)
next
  case (Some ds)
  show ?thesis
  proof (cases ds)
    case Nil
    with Some show ?thesis by (simp add: faviconFromStatics_def specFavicons_def)
  next
    case (Cons d ds')
    with Some show ?thesis
      using faviconsInDir_collected [OF Some]
      by (simp add: faviconFromStatics_def foldl_append_concat Let_def)
  qed
qed

lemma collected_nonempty_paths:
  assumes "\<And>a b. pathJoin env a b \<noteq> []"
  shows "[] \<notin> set (specFavicons env)"
proof -
  have "[] \<noteq> pathJoin env a b" for a b
    using assms [of a b] by simp
  then show ?thesis
    by (auto simp: specFavicons_def Let_def split: if_splits option.splits)
qed

lemma ex_collected: "specFavicons exampleFaviconEnv = [''/public/favicon.svg'', ''/public/favicon.ico'']"
  by (simp add: specFavicons_def exampleFaviconEnv_def)

text \<open>
  Claim C3, as the code has it: a non-empty previous value is returned unchanged,
  whatever the environment is, and nothing is logged. With no previous value, or the
  empty string, the preset returns the first of the collected favicons (from each
  static dir whose target endpoint is \<^verbatim>\<open>'/'\<close>, the existing \<^verbatim>\<open>favicon.svg\<close> and then the
  existing \<^verbatim>\<open>favicon.ico\<close>), or the bundled default when none is collected, in
  particular when there are no static dirs; it warns exactly when more than one is
  collected, and still returns the first. (The path join of the platform never gives
  the empty string.)
\<close>

theorem favicon_selects:
  assumes join: "\<And>a b. pathJoin env a b \<noteq> []"
  shows "(v \<noteq> [] \<longrightarrow> favicon env' (Some v) = ([], v))
       \<and> (val = None \<or> val = Some [] \<longrightarrow>
            snd (favicon env val)
              = (case specFavicons env of [] \<Rightarrow> defaultFavicon env | first # others \<Rightarrow> first)
          \<and> fst (favicon env val)
              = (if length (specFavicons env) > 1
                 then [multipleFaviconsWarning (specFavicons env)] else [])
          \<and> (presetStaticDirs env = None \<or> presetStaticDirs env = Some [] \<longrightarrow>
               favicon env val = ([], defaultFavicon env)))"
proof -
  have direct: "v \<noteq> [] \<longrightarrow> favicon env' (Some v) = ([], v)"
    by (simp add: favicon_def)
  have fall: "favicon env val = faviconFromStatics env" if "val = None \<or> val = Some []"
    using that by (auto simp: favicon_def)
  have ne: "[] \<notin> set (specFavicons env)"
    using collected_nonempty_paths [of env] join by blast
  have first: "snd (faviconFromStatics env)
      = (case specFavicons env of [] \<Rightarrow> defaultFavicon env | first # others \<Rightarrow> first)"
    using ne by (cases "specFavicons env") (auto simp: faviconFromStatics_collected)
  have warn: "fst (faviconFromStatics env)
      = (if length (specFavicons env) > 1
         then [multipleFaviconsWarning (specFavicons env)] else [])"
    by (simp add: faviconFromStatics_collected)
  have none: "faviconFromStatics env = ([], defaultFavicon env)"
    if "presetStaticDirs env = None \<or> presetStaticDirs env = Some []"
    using that by (auto simp: faviconFromStatics_def)
  show ?thesis
    using direct fall first warn none by simp
qed

theorem favicon_selects_witness:
  "(\<forall>a b. pathJoin exampleFaviconEnv a b \<noteq> [])
   \<and> favicon exampleFaviconEnv (Some ''/my/icon.png'') = ([], ''/my/icon.png'')
   \<and> specFavicons exampleFaviconEnv = [''/public/favicon.svg'', ''/public/favicon.ico'']
   \<and> snd (favicon exampleFaviconEnv None) = ''/public/favicon.svg''
   \<and> fst (favicon exampleFaviconEnv None)
       = [multipleFaviconsWarning [''/public/favicon.svg'', ''/public/favicon.ico'']]"
proof -
  have j: "pathJoin exampleFaviconEnv a b \<noteq> []" for a b
    by (simp add: exampleFaviconEnv_def)
  have c: "specFavicons exampleFaviconEnv = [''/public/favicon.svg'', ''/public/favicon.ico'']"
    by (simp add: specFavicons_def exampleFaviconEnv_def)
  show ?thesis
    using favicon_selects [of exampleFaviconEnv "''/my/icon.png''" exampleFaviconEnv None, OF j] j
    by (simp add: c)
qed

text \<open>
  Claim C3 as stated fails for the empty string as the previous value: it is given, but
  it is not returned; the static dirs are consulted instead.
\<close>

theorem favicon_empty_value_counterexample:
  "favicon exampleFaviconEnv (Some []) \<noteq> ([], [])
   \<and> snd (favicon exampleFaviconEnv (Some [])) = ''/public/favicon.svg''"
  by (simp add: favicon_def faviconFromStatics_collected ex_collected)

text \<open>
  Claim C6: \<^verbatim>\<open>staticDirs\<close> returns the default static dirs followed by the given values
  in their order, and the default static dirs alone when called with no value.
\<close>

theorem staticDirs_prepends:
  "staticDirs defaultStaticDirs (Some vs) = defaultStaticDirs @ vs
   \<and> staticDirs defaultStaticDirs None = defaultStaticDirs"
  by (simp add: staticDirs_def)

theorem staticDirs_prepends_witness:
  "staticDirs [DirMapping ''assets'' ''/sb-common-assets''] (Some [DirPath ''public'', DirPath ''static''])
     = [DirMapping ''assets'' ''/sb-common-assets'', DirPath ''public'', DirPath ''static'']
   \<and> staticDirs [DirMapping ''assets'' ''/sb-common-assets''] None
     = [DirMapping ''assets'' ''/sb-common-assets'']"
  using staticDirs_prepends [of "[DirMapping ''assets'' ''/sb-common-assets'']"
      "[DirPath ''public'', DirPath ''static'']"]
  by simp

text \<open>
  Claim C10: \<^verbatim>\<open>optionalEnvToBoolean\<close> returns \<^verbatim>\<open>undefined\<close> exactly on \<^verbatim>\<open>undefined\<close>; on a
  string it returns \<^verbatim>\<open>false\<close> exactly when the string uppercases to \<^verbatim>\<open>'FALSE'\<close> and \<^verbatim>\<open>true\<close>
  on every other string, among them \<^verbatim>\<open>'0'\<close>, \<^verbatim>\<open>'no'\<close> and the empty string.
\<close>

theorem optionalEnvToBoolean_total:
  "(optionalEnvToBoolean up input = None \<longleftrightarrow> input = None)
   \<and> (optionalEnvToBoolean up (Some str) = Some False \<longleftrightarrow> up str = ''FALSE'')
   \<and> (optionalEnvToBoolean up (Some str) = Some True \<longleftrightarrow> up str \<noteq> ''FALSE'')
   \<and> optionalEnvToBoolean toUpperCaseAscii (Some ''0'') = Some True
   \<and> optionalEnvToBoolean toUpperCaseAscii (Some ''no'') = Some True
   \<and> optionalEnvToBoolean toUpperCaseAscii (Some []) = Some True"
  by (auto simp: optionalEnvToBoolean_def toUpperCaseAscii_def split: option.splits)

theorem optionalEnvToBoolean_total_witness:
  "optionalEnvToBoolean toUpperCaseAscii None = None
   \<and> toUpperCaseAscii ''False'' = ''FALSE''
   \<and> optionalEnvToBoolean toUpperCaseAscii (Some ''False'') = Some False
   \<and> toUpperCaseAscii ''off'' = ''OFF''
   \<and> optionalEnvToBoolean toUpperCaseAscii (Some ''off'') = Some True"
  using optionalEnvToBoolean_total [of toUpperCaseAscii None "''False''"]
    optionalEnvToBoolean_total [of toUpperCaseAscii None "''off''"]
  by (simp add: toUpperCaseAscii_def)

text \<open>
  Claim C7, as the code has it: the result agrees with \<open>existing\<close> on every field other
  than \<^verbatim>\<open>disableTelemetry\<close> and \<^verbatim>\<open>enableCrashReports\<close>; \<^verbatim>\<open>disableTelemetry\<close> is the boolean
  "\<^verbatim>\<open>options.disableTelemetry === true\<close> or \<^verbatim>\<open>options.test === true\<close>";
  \<^verbatim>\<open>enableCrashReports\<close> is \<^verbatim>\<open>true\<close> when \<^verbatim>\<open>options.enableCrashReports\<close> is \<^verbatim>\<open>true\<close>, and
  otherwise (unset or \<^verbatim>\<open>false\<close>) what \<^verbatim>\<open>optionalEnvToBoolean\<close> makes of the environment
  variable.
\<close>

theorem core_merges:
  "(\<forall>field. field \<noteq> ''disableTelemetry'' \<and> field \<noteq> ''enableCrashReports'' \<longrightarrow>
       core up env existing options field = existing field)
   \<and> core up env existing options ''disableTelemetry''
       = Some (JBool (opt_disableTelemetry options = Some True \<or> opt_test options = Some True))
   \<and> (opt_enableCrashReports options = Some True \<longrightarrow>
        core up env existing options ''enableCrashReports'' = Some (JBool True))
   \<and> (opt_enableCrashReports options \<noteq> Some True \<longrightarrow>
        core up env existing options ''enableCrashReports''
          = Some (case optionalEnvToBoolean up env of None \<Rightarrow> JUndefined | Some b \<Rightarrow> JBool b))"
  by (simp add: core_def)

theorem core_merges_witness:
  "core toUpperCaseAscii (Some ''false'') [''builder'' \<mapsto> JString ''webpack5'']
      \<lparr>opt_disableTelemetry = None, opt_test = Some True, opt_enableCrashReports = None\<rparr> ''builder''
     = Some (JString ''webpack5'')
   \<and> core toUpperCaseAscii (Some ''false'') [''builder'' \<mapsto> JString ''webpack5'']
      \<lparr>opt_disableTelemetry = None, opt_test = Some True, opt_enableCrashReports = None\<rparr> ''disableTelemetry''
     = Some (JBool True)
   \<and> core toUpperCaseAscii (Some ''false'') [''builder'' \<mapsto> JString ''webpack5'']
      \<lparr>opt_disableTelemetry = None, opt_test = Some True, opt_enableCrashReports = None\<rparr> ''enableCrashReports''
     = Some (JBool False)"
  using core_merges [of toUpperCaseAscii "Some ''false''" "[''builder'' \<mapsto> JString ''webpack5'']"
      "\<lparr>opt_disableTelemetry = None, opt_test = Some True, opt_enableCrashReports = None\<rparr>"]
  by (simp add: optionalEnvToBoolean_def toUpperCaseAscii_def)

text \<open>
  Claim C7 as stated fails when \<^verbatim>\<open>options.enableCrashReports\<close> is set to \<^verbatim>\<open>false\<close>: the
  \<^verbatim>\<open>||\<close> passes over it, and the environment variable decides.
\<close>

theorem core_explicit_false_counterexample:
  "core toUpperCaseAscii (Some ''true'') Map.empty
      \<lparr>opt_disableTelemetry = None, opt_test = None, opt_enableCrashReports = Some False\<rparr>
      ''enableCrashReports'' = Some (JBool True)"
  by (simp add: core_def optionalEnvToBoolean_def toUpperCaseAscii_def)

section \<open>The server channel\<close>

lemma request_fetch_throws:
  "fetchWhatsNew w = Inl e \<Longrightarrow>
   onRequestWhatsNewData w = ([LogVerbose (errorText e), Emit RESULT_WHATS_NEW_DATA StatusError], None)"
  by (simp add: onRequestWhatsNewData_def requestTry_def requestCatch_def whatsNewData_def)

lemma request_not_ok:
  "fetchWhatsNew w = Inr r \<Longrightarrow> \<not> ok r \<Longrightarrow>
   onRequestWhatsNewData w = ([LogVerbose (asString r), Emit RESULT_WHATS_NEW_DATA StatusError], None)"
  by (simp add: onRequestWhatsNewData_def requestTry_def requestCatch_def whatsNewData_def)

lemma request_json_throws:
  "fetchWhatsNew w = Inr r \<Longrightarrow> ok r \<Longrightarrow> json r = Inl e \<Longrightarrow>
   onRequestWhatsNewData w = ([LogVerbose (errorText e), Emit RESULT_WHATS_NEW_DATA StatusError], None)"
  by (simp add: onRequestWhatsNewData_def requestTry_def requestCatch_def whatsNewData_def)

lemma request_no_main:
  "fetchWhatsNew w = Inr r \<Longrightarrow> ok r \<Longrightarrow> json r = Inr p \<Longrightarrow>
   findConfigFile w = None \<or> findConfigFile w = Some [] \<Longrightarrow>
   onRequestWhatsNewData w =
     ([LogVerbose (noMainFile (configDir w)), Emit RESULT_WHATS_NEW_DATA StatusError], None)"
  by (auto simp: onRequestWhatsNewData_def requestTry_def requestCatch_def whatsNewData_def)

lemma request_config_throws:
  "fetchWhatsNew w = Inr r \<Longrightarrow> ok r \<Longrightarrow> json r = Inr p \<Longrightarrow>
   findConfigFile w = Some f \<Longrightarrow> f \<noteq> [] \<Longrightarrow>
   readConfig w f = Inl e \<or> (\<exists>m. readConfig w f = Inr m \<and> getFieldValue m = Inl e) \<Longrightarrow>
   onRequestWhatsNewData w = ([LogVerbose (errorText e), Emit RESULT_WHATS_NEW_DATA StatusError], None)"
  by (auto simp: onRequestWhatsNewData_def requestTry_def requestCatch_def whatsNewData_def)

lemma request_cache_throws:
  "fetchWhatsNew w = Inr r \<Longrightarrow> ok r \<Longrightarrow> json r = Inr p \<Longrightarrow>
   findConfigFile w = Some f \<Longrightarrow> f \<noteq> [] \<Longrightarrow>
   readConfig w f = Inr m \<Longrightarrow> getFieldValue m = Inr d \<Longrightarrow> cacheGet w = Inl e \<Longrightarrow>
   onRequestWhatsNewData w = ([LogVerbose (errorText e), Emit RESULT_WHATS_NEW_DATA StatusError], None)"
  by (simp add: onRequestWhatsNewData_def requestTry_def requestCatch_def whatsNewData_def)

lemma request_success:
  "fetchWhatsNew w = Inr r \<Longrightarrow> ok r \<Longrightarrow> json r = Inr p \<Longrightarrow>
   findConfigFile w = Some f \<Longrightarrow> f \<noteq> [] \<Longrightarrow>
   readConfig w f = Inr m \<Longrightarrow> getFieldValue m = Inr d \<Longrightarrow> cacheGet w = Inr got \<Longrightarrow>
   onRequestWhatsNewData w =
     ([Emit RESULT_WHATS_NEW_DATA (StatusSuccess
         \<lparr>post = p,
          postIsRead = (Some (url p) = lastReadPost (cacheOrEmpty got)),
          showNotification = (Some (url p) \<noteq> lastDismissedPost (cacheOrEmpty got)
                              \<and> Some (url p) \<noteq> lastReadPost (cacheOrEmpty got)),
          disableWhatsNewNotifications = d\<rparr>)], None)"
  by (simp add: onRequestWhatsNewData_def requestTry_def requestCatch_def whatsNewData_def Let_def)

lemma request_dichotomy:
  "(\<exists>d. onRequestWhatsNewData w = ([Emit RESULT_WHATS_NEW_DATA (StatusSuccess d)], None))
   \<or> (\<exists>message. onRequestWhatsNewData w =
         ([LogVerbose message, Emit RESULT_WHATS_NEW_DATA StatusError], None))"
  by (cases "whatsNewData w") (auto simp: onRequestWhatsNewData_def requestTry_def requestCatch_def)


lemma request_success_cached:
  "fetchWhatsNew w = Inr r \<Longrightarrow> ok r \<Longrightarrow> json r = Inr p \<Longrightarrow>
   findConfigFile w = Some f \<Longrightarrow> f \<noteq> [] \<Longrightarrow>
   readConfig w f = Inr m \<Longrightarrow> getFieldValue m = Inr d \<Longrightarrow> cacheGet w = Inr (Some c) \<Longrightarrow>
   onRequestWhatsNewData w =
     ([Emit RESULT_WHATS_NEW_DATA (StatusSuccess
         \<lparr>post = p,
          postIsRead = (lastReadPost c = Some (url p)),
          showNotification = (lastDismissedPost c \<noteq> Some (url p) \<and> lastReadPost c \<noteq> Some (url p)),
          disableWhatsNewNotifications = d\<rparr>)], None)"
  by (auto simp: request_success cacheOrEmpty_def)

lemma request_success_no_cache:
  "fetchWhatsNew w = Inr r \<Longrightarrow> ok r \<Longrightarrow> json r = Inr p \<Longrightarrow>
   findConfigFile w = Some f \<Longrightarrow> f \<noteq> [] \<Longrightarrow>
   readConfig w f = Inr m \<Longrightarrow> getFieldValue m = Inr d \<Longrightarrow> cacheGet w = Inr None \<Longrightarrow>
   onRequestWhatsNewData w =
     ([Emit RESULT_WHATS_NEW_DATA (StatusSuccess
         \<lparr>post = p, postIsRead = False, showNotification = True,
          disableWhatsNewNotifications = d\<rparr>)], None)"
  by (simp add: request_success cacheOrEmpty_def)

text \<open>
  Claim C4: the \<^verbatim>\<open>REQUEST_WHATS_NEW_DATA\<close> handler lets no error escape. Whenever a step
  fails (the fetch throws, the response is not ok, the JSON parse throws, no main config
  file is found, reading the config or its field throws, reading the cache throws) it
  logs the error at verbose level (the message of an \<^verbatim>\<open>Error\<close>, the string rendering of
  any other thrown value) and emits \<^verbatim>\<open>RESULT_WHATS_NEW_DATA\<close> with \<^verbatim>\<open>{ status: 'ERROR' }\<close>,
  and does nothing else. When every step succeeds it emits \<^verbatim>\<open>RESULT_WHATS_NEW_DATA\<close> once,
  with the fetched post, \<^verbatim>\<open>postIsRead\<close> true iff the url of the post is the cached
  \<^verbatim>\<open>lastReadPost\<close>, and \<^verbatim>\<open>showNotification\<close> true iff the url differs from both the cached
  \<^verbatim>\<open>lastDismissedPost\<close> and \<^verbatim>\<open>lastReadPost\<close>; with no cache stored the post is unread and
  the notification is shown. (\<^verbatim>\<open>logger.verbose\<close> and \<^verbatim>\<open>channel.emit\<close> return normally.)
\<close>

theorem onRequestWhatsNewData_recovers:
  "snd (onRequestWhatsNewData w) = None
   \<and> (\<forall>e t. fetchWhatsNew w = Inl e \<and> (e = JsError t \<or> e = JsThrown t) \<longrightarrow>
         fst (onRequestWhatsNewData w)
           = [LogVerbose t, Emit RESULT_WHATS_NEW_DATA StatusError])
   \<and> (\<forall>r. fetchWhatsNew w = Inr r \<and> \<not> ok r \<longrightarrow>
         fst (onRequestWhatsNewData w)
           = [LogVerbose (asString r), Emit RESULT_WHATS_NEW_DATA StatusError])
   \<and> (\<forall>r e t. fetchWhatsNew w = Inr r \<and> ok r \<and> json r = Inl e
               \<and> (e = JsError t \<or> e = JsThrown t) \<longrightarrow>
         fst (onRequestWhatsNewData w)
           = [LogVerbose t, Emit RESULT_WHATS_NEW_DATA StatusError])
   \<and> (\<forall>r p. fetchWhatsNew w = Inr r \<and> ok r \<and> json r = Inr p \<longrightarrow>
         (findConfigFile w = None \<or> findConfigFile w = Some [] \<longrightarrow>
            fst (onRequestWhatsNewData w)
              = [LogVerbose (''unable to find storybook main file in '' @ configDir w),
                 Emit RESULT_WHATS_NEW_DATA StatusError])
       \<and> (\<forall>f. findConfigFile w = Some f \<and> f \<noteq> [] \<longrightarrow>
            (\<forall>e t. readConfig w f = Inl e \<and> (e = JsError t \<or> e = JsThrown t) \<longrightarrow>
               fst (onRequestWhatsNewData w)
                 = [LogVerbose t, Emit RESULT_WHATS_NEW_DATA StatusError])
          \<and> (\<forall>m. readConfig w f = Inr m \<longrightarrow>
               (\<forall>e t. getFieldValue m = Inl e \<and> (e = JsError t \<or> e = JsThrown t) \<longrightarrow>
                  fst (onRequestWhatsNewData w)
                    = [LogVerbose t, Emit RESULT_WHATS_NEW_DATA StatusError])
             \<and> (\<forall>d. getFieldValue m = Inr d \<longrightarrow>
                  (\<forall>e t. cacheGet w = Inl e \<and> (e = JsError t \<or> e = JsThrown t) \<longrightarrow>
                     fst (onRequestWhatsNewData w)
                       = [LogVerbose t, Emit RESULT_WHATS_NEW_DATA StatusError])
                \<and> (cacheGet w = Inr None \<longrightarrow>
                     fst (onRequestWhatsNewData w)
                       = [Emit RESULT_WHATS_NEW_DATA (StatusSuccess
                            \<lparr>post = p, postIsRead = False, showNotification = True,
                             disableWhatsNewNotifications = d\<rparr>)])
                \<and> (\<forall>c. cacheGet w = Inr (Some c) \<longrightarrow>
                     fst (onRequestWhatsNewData w)
                       = [Emit RESULT_WHATS_NEW_DATA (StatusSuccess
                            \<lparr>post = p,
                             postIsRead = (lastReadPost c = Some (url p)),
                             showNotification =
                               (lastDismissedPost c \<noteq> Some (url p)
                                \<and> lastReadPost c \<noteq> Some (url p)),
                             disableWhatsNewNotifications = d\<rparr>)])))))"
proof -
  have escape: "snd (onRequestWhatsNewData w) = None"
    using request_dichotomy [of w] by auto
  show ?thesis
    using escape
    by (auto simp: request_fetch_throws request_not_ok request_json_throws request_no_main
        request_config_throws request_cache_throws request_success_cached
        request_success_no_cache noMainFile_def)
qed

theorem onRequestWhatsNewData_recovers_witness:
  "onRequestWhatsNewData exampleWorld
     = ([Emit RESULT_WHATS_NEW_DATA (StatusSuccess
          \<lparr>post = examplePost, postIsRead = True, showNotification = False,
           disableWhatsNewNotifications = JUndefined\<rparr>)], None)
   \<and> onRequestWhatsNewData (exampleWorld\<lparr>cacheGet := Inr None\<rparr>)
     = ([Emit RESULT_WHATS_NEW_DATA (StatusSuccess
          \<lparr>post = examplePost, postIsRead = False, showNotification = True,
           disableWhatsNewNotifications = JUndefined\<rparr>)], None)
   \<and> onRequestWhatsNewData
       (exampleWorld\<lparr>fetchWhatsNew :=
          Inr \<lparr>ok = False, json = Inr examplePost, asString = ''[object Response]''\<rparr>\<rparr>)
     = ([LogVerbose ''[object Response]'', Emit RESULT_WHATS_NEW_DATA StatusError], None)
   \<and> onRequestWhatsNewData (exampleWorld\<lparr>cacheGet := Inl (JsError ''EACCES'')\<rparr>)
     = ([LogVerbose ''EACCES'', Emit RESULT_WHATS_NEW_DATA StatusError], None)
   \<and> onRequestWhatsNewData (exampleWorld\<lparr>findConfigFile := None\<rparr>)
     = ([LogVerbose ''unable to find storybook main file in .storybook'',
         Emit RESULT_WHATS_NEW_DATA StatusError], None)"
  using onRequestWhatsNewData_recovers [of exampleWorld]
    onRequestWhatsNewData_recovers [of "exampleWorld\<lparr>cacheGet := Inr None\<rparr>"]
    onRequestWhatsNewData_recovers [of "exampleWorld\<lparr>fetchWhatsNew :=
          Inr \<lparr>ok = False, json = Inr examplePost, asString = ''[object Response]''\<rparr>\<rparr>"]
    onRequestWhatsNewData_recovers [of "exampleWorld\<lparr>cacheGet := Inl (JsError ''EACCES'')\<rparr>"]
    onRequestWhatsNewData_recovers [of "exampleWorld\<lparr>findConfigFile := None\<rparr>"]
  by (simp add: exampleWorld_def examplePost_def prod_eq_iff)

lemma toggleTry_no_telemetry:
  "filter isTelemetryCall (fst (toggleTry w False flag)) = []"
  by (simp add: toggleTry_def split: option.splits sum.splits)

lemma toggleCatch_no_telemetry:
  "filter isTelemetryCall (fst (toggleCatch w False error)) = []"
  by (simp add: toggleCatch_def split: js_error.splits)

lemma onToggle_disabled:
  "filter isTelemetryCall (fst (onToggleWhatsNewNotifications w flag)) = []"
  if "coreDisableTelemetry w = Some True"
proof -
  obtain calls thrown where t: "toggleTry w False flag = (calls, thrown)"
    by (cases "toggleTry w False flag")
  have c: "filter isTelemetryCall calls = []"
    using toggleTry_no_telemetry [of w flag] by (simp add: t)
  show ?thesis
  proof (cases thrown)
    case None
    with t c that show ?thesis by (simp add: onToggleWhatsNewNotifications_def)
  next
    case (Some error)
    obtain later escaped where k: "toggleCatch w False error = (later, escaped)"
      by (cases "toggleCatch w False error")
    have "filter isTelemetryCall later = []"
      using toggleCatch_no_telemetry [of w error] by (simp add: k)
    with t c k Some that show ?thesis by (simp add: onToggleWhatsNewNotifications_def)
  qed
qed

lemma onSet_no_telemetry:
  "filter isTelemetryCall (fst (onSetWhatsNewCache w d)) = []"
  by (simp add: onSetWhatsNewCache_def Let_def split: sum.splits)

lemma onRequest_no_telemetry:
  "filter isTelemetryCall (fst (onRequestWhatsNewData w)) = []"
  by (simp add: onRequestWhatsNewData_def requestTry_def requestCatch_def split: sum.splits)

lemma onTelemetryError_enabled:
  "coreDisableTelemetry w \<noteq> Some True \<Longrightarrow>
   fst (onTelemetryError w error) = [SendTelemetryError error ''browser'']"
  by (simp add: onTelemetryError_def)

text \<open>
  Claim C5: when the applied core config has \<^verbatim>\<open>disableTelemetry === true\<close>, the
  \<^verbatim>\<open>TELEMETRY_ERROR\<close> handler makes no call at all, the
  \<^verbatim>\<open>TOGGLE_WHATS_NEW_NOTIFICATIONS\<close> handler calls neither \<^verbatim>\<open>telemetry\<close> nor
  \<^verbatim>\<open>sendTelemetryError\<close>, whether it succeeds or fails, and no handler registered here
  makes such a call for any event.
\<close>

theorem telemetry_disabled_never_relayed:
  assumes "coreDisableTelemetry w = Some True"
  shows "onTelemetryError w error = ([], None)
       \<and> filter isTelemetryCall (fst (onToggleWhatsNewNotifications w flag)) = []
       \<and> filter isTelemetryCall (fst (experimental_serverChannel w ev)) = []"
proof -
  have te: "onTelemetryError w error = ([], None)" for error
    using assms by (simp add: onTelemetryError_def)
  have "filter isTelemetryCall (fst (experimental_serverChannel w ev)) = []"
    by (cases ev) (simp_all add: te onSet_no_telemetry onRequest_no_telemetry
        onToggle_disabled [OF assms])
  with te onToggle_disabled [OF assms] show ?thesis by simp
qed

theorem telemetry_disabled_never_relayed_witness:
  "coreDisableTelemetry exampleWorld = Some True
   \<and> onTelemetryError exampleWorld (JsError ''boom'') = ([], None)
   \<and> onToggleWhatsNewNotifications exampleWorld True
       = ([WriteFile ''.storybook/main.ts'' ''off''], None)
   \<and> onToggleWhatsNewNotifications (exampleWorld\<lparr>findConfigFile := None\<rparr>) True = ([], None)
   \<and> fst (onTelemetryError (exampleWorld\<lparr>coreDisableTelemetry := None\<rparr>) (JsError ''boom''))
       = [SendTelemetryError (JsError ''boom'') ''browser'']"
  using telemetry_disabled_never_relayed [of exampleWorld "JsError ''boom''" True
      "ToggleWhatsNewNotifications True"]
  by (simp add: exampleWorld_def onTelemetryError_def onToggleWhatsNewNotifications_def
      toggleTry_def toggleCatch_def)

end
